theory Spec2Isabelle
  imports Complex_Main
begin

section \<open>Self-consistency evaluation: a shallow embedding\<close>

text \<open>
  The development follows the two scripts of the repository, \<^verbatim>\<open>self_consistency.py\<close> (the
  evaluator) and \<^verbatim>\<open>accuracy.py\<close> (the reporter).

  Conventions of the embedding.
  \<^item> A Python number is the rational it denotes: \<^verbatim>\<open>float("63.65")\<close> is \<open>6365 / 100\<close>, and
    subtraction, division and comparison are exact. Binary rounding of IEEE doubles is
    not part of the embedding.
  \<^item> A text is a \<open>string\<close>, a list of 8-bit characters; the digits are the ASCII digits.
    (Python's \<^verbatim>\<open>\d\<close> also matches the decimal digits of other scripts; texts holding
    such characters are outside the embedding.)
  \<^item> The completion service is an oracle: the reply to the \<open>n\<close>-th request of a run, given
    its prompt and temperature. A reply is a text or a failure of the call.
  \<^item> A run of a script transforms a \<open>world\<close>: the process environment, the files, the log
    of requests sent to the service and the lines printed. An uncaught exception is a
    value of type \<open>error\<close> returned together with the world reached when it was raised.
  \<^item> A file holds a JSON document (what \<^verbatim>\<open>json.dump\<close> writes and \<^verbatim>\<open>json.load\<close> reads back), a
    rendered chart, or something else.
\<close>

subsection \<open>The numeric answer extractor\<close>

definition is_digit :: "char \<Rightarrow> bool" where
  "is_digit c = (48 \<le> (of_char c :: nat) \<and> (of_char c :: nat) \<le> 57)"

text \<open>
  One match of the pattern \<^verbatim>\<open>\d+(?:\.\d+)?\<close> at the start of a text: the longest run of
  digits, then, when a dot and at least one digit follow, the dot and the longest run of
  digits after it. The result is the matched text and the rest.
\<close>

definition match_number :: "string \<Rightarrow> (string \<times> string) option" where
  "match_number s =
     (let ds = takeWhile is_digit s; r = dropWhile is_digit s
      in if ds = [] then None
         else (case r of
                 [] \<Rightarrow> Some (ds, r)
               | c # r' \<Rightarrow>
                   (let fs = takeWhile is_digit r'
                    in if c = CHR ''.'' \<and> fs \<noteq> []
                       then Some (ds @ c # fs, dropWhile is_digit r')
                       else Some (ds, r))))"

lemma dropWhile_digit_shorter:
  "takeWhile is_digit s \<noteq> [] \<Longrightarrow> length (dropWhile is_digit s) < length s"
  by (cases s) (auto simp: less_Suc_eq_le length_dropWhile_le split: if_splits)

lemma match_number_shorter: "match_number s = Some (m, r) \<Longrightarrow> length r < length s"
proof -
  assume a: "match_number s = Some (m, r)"
  have ne: "takeWhile is_digit s \<noteq> []"
    using a by (auto simp: match_number_def Let_def split: if_splits)
  have lt: "length (dropWhile is_digit s) < length s"
    using ne by (rule dropWhile_digit_shorter)
  show ?thesis
  proof (cases "dropWhile is_digit s")
    case Nil
    with a ne lt show ?thesis by (simp add: match_number_def Let_def)
  next
    case (Cons c r')
    have le: "length (dropWhile is_digit r') \<le> length r'"
      by (simp add: length_dropWhile_le)
    have len: "Suc (length r') < length s"
      using lt Cons by simp
    have "r = c # r' \<or> r = dropWhile is_digit r'"
      using a ne Cons by (auto simp: match_number_def Let_def split: if_splits)
    then show ?thesis
      using le len by auto
  qed
qed

text \<open>
  \<^verbatim>\<open>re.findall\<close> for that pattern: the text is scanned from the left, a match is taken
  wherever one starts, and the scan goes on behind it.
\<close>

function findall :: "string \<Rightarrow> string list" where
  "findall [] = []"
| "findall (c # cs) =
     (case match_number (c # cs) of
        None \<Rightarrow> findall cs
      | Some (m, r) \<Rightarrow> m # findall r)"
  by pat_completeness auto
termination
  by (relation "measure length") (auto dest: match_number_shorter)

definition digits_value :: "string \<Rightarrow> nat" where
  "digits_value ds = foldl (\<lambda>n c. 10 * n + (of_char c - 48)) 0 ds"

text \<open>
  \<^verbatim>\<open>float(m)\<close> for a match \<open>m\<close> of the pattern: the integer part plus the fraction digits
  scaled by their number. The extractor applies it to matches only.
\<close>

definition float_of :: "string \<Rightarrow> rat" where
  "float_of m =
     (let ip = takeWhile is_digit m
      in case dropWhile is_digit m of
           [] \<Rightarrow> of_nat (digits_value ip)
         | c # fp \<Rightarrow> of_nat (digits_value ip) + of_nat (digits_value fp) / 10 ^ length fp)"

definition extract_number :: "string \<Rightarrow> rat option" where
  "extract_number text =
     (let numbers = findall text
      in if numbers \<noteq> [] then Some (float_of (last numbers)) else None)"



subsection \<open>Majority selection\<close>

text \<open>
  \<^verbatim>\<open>Counter(answers)\<close> is a dictionary in insertion order: counting an element increments
  its entry where it stands, or appends a new entry with count one.
\<close>

fun counter_add :: "'a \<Rightarrow> ('a \<times> nat) list \<Rightarrow> ('a \<times> nat) list" where
  "counter_add x [] = [(x, 1)]"
| "counter_add x ((k, n) # kvs) =
     (if k = x then (k, n + 1) # kvs else (k, n) # counter_add x kvs)"

definition Counter :: "'a list \<Rightarrow> ('a \<times> nat) list" where
  "Counter xs = foldl (\<lambda>c x. counter_add x c) [] xs"

text \<open>
  \<^verbatim>\<open>most_common(1)\<close> is \<^verbatim>\<open>heapq.nlargest(1, items, key=count)\<close>, which for one element is
  \<^verbatim>\<open>max(items, key=count)\<close>: the running maximum is replaced only by a strictly larger
  count, so the first of several maximal entries is kept.
\<close>

fun max_by_count :: "('a \<times> nat) \<Rightarrow> ('a \<times> nat) list \<Rightarrow> ('a \<times> nat)" where
  "max_by_count best [] = best"
| "max_by_count best (kv # kvs) = max_by_count (if snd best < snd kv then kv else best) kvs"

definition most_common1 :: "('a \<times> nat) list \<Rightarrow> ('a \<times> nat) list" where
  "most_common1 items = (case items of [] \<Rightarrow> [] | kv # kvs \<Rightarrow> [max_by_count kv kvs])"

text \<open>
  The words of the specification, for comparison: the position at which a value is first
  encountered, and the value with the highest occurrence count, the earliest such value
  winning a tie.
\<close>

definition first_index :: "'a list \<Rightarrow> 'a \<Rightarrow> nat" where
  "first_index xs v = length (takeWhile (\<lambda>y. y \<noteq> v) xs)"

definition stable_mode :: "'a list \<Rightarrow> 'a \<Rightarrow> bool" where
  "stable_mode xs m \<longleftrightarrow>
     m \<in> set xs \<and>
     (\<forall>v \<in> set xs. count_list xs v \<le> count_list xs m) \<and>
     (\<forall>v \<in> set xs. count_list xs v = count_list xs m \<longrightarrow> first_index xs m \<le> first_index xs v)"

subsection \<open>Errors, files, console and the completion service\<close>

datatype error =
    OpenAIError
  | APIError
  | IndexError
  | TypeError
  | KeyError
  | ZeroDivisionError
  | JSONDecodeError

datatype json =
    JNull
  | JBool bool
  | JNum rat
  | JStr string
  | JArr "json list"
  | JObj "(string \<times> json) list"

text \<open>What \<^verbatim>\<open>accuracy.py\<close> asks matplotlib to draw.\<close>

record chart =
  bar_labels :: "string list"
  bar_heights :: "rat list"
  bar_colors :: "string list"
  bar_texts :: "(rat \<times> string) list"
  ylabel :: string
  title :: string
  ylim :: "rat \<times> rat"

datatype file_content = JsonFile json | ImageFile chart | OtherFile string

text \<open>
  A printed line is a list of pieces: literal text, and interpolated numbers whose
  rendering by \<^verbatim>\<open>str\<close> is left to Python.
\<close>

datatype piece = Str string | Num rat | NumOpt "rat option" | NumList "rat list"

type_synonym line = "piece list"

record request =
  model :: string
  content :: string
  temperature :: rat
  max_tokens :: nat

datatype reply = Content string | Failure

type_synonym service = "nat \<Rightarrow> request \<Rightarrow> reply"

record world =
  env :: "string \<rightharpoonup> string"
  files :: "string \<rightharpoonup> file_content"
  requests :: "request list"
  stdout :: "line list"

definition print :: "line \<Rightarrow> world \<Rightarrow> world" where
  "print l w = w\<lparr>stdout := stdout w @ [l]\<rparr>"

definition digit_char :: "nat \<Rightarrow> char" where
  "digit_char d = ''0123456789'' ! d"

fun str_nat :: "nat \<Rightarrow> string" where
  "str_nat n = (if n < 10 then [digit_char n] else str_nat (n div 10) @ [digit_char (n mod 10)])"

declare str_nat.simps [simp del]

text \<open>\<^verbatim>\<open>format(i, "+")\<close> for an integer: the sign is always written.\<close>

definition str_int_signed :: "int \<Rightarrow> string" where
  "str_int_signed i = (if i < 0 then ''-'' else ''+'') @ str_nat (nat \<bar>i\<bar>)"

subsection \<open>The evaluator: \<^verbatim>\<open>self_consistency.py\<close>\<close>

record problem_data =
  problem :: string
  answer :: rat

definition PROBLEMS :: "problem_data list" where
  "PROBLEMS =
     [\<lparr>problem = ''A store sold 450 books Monday, 325 Tuesday, 275 Wednesday. Thursday it sold 50 more than Wednesday. Total books sold?'', answer = 1100\<rparr>,
      \<lparr>problem = ''Sarah has $120. Spends 1/4 on jacket, 1/3 of remaining on shoes. Money left?'', answer = 60\<rparr>,
      \<lparr>problem = ''Train travels 240 miles in 4 hours. How many miles in 7 hours at same speed?'', answer = 420\<rparr>,
      \<lparr>problem = ''Class of 30: 18 girls, rest boys. 2/3 girls and 3/4 boys play sports. How many play sports?'', answer = 21\<rparr>,
      \<lparr>problem = ''Rectangle 15cm x 8cm. Length +20%, width -25%. New area?'', answer = 108\<rparr>,
      \<lparr>problem = ''Tom scored 85, 92, 78 on three tests. What score needed on fourth test for 88 average?'', answer = 97\<rparr>,
      \<lparr>problem = ''Item costs $75, 20% discount, then 6% tax on discounted price. Total paid?'', answer = 636 / 10\<rparr>,
      \<lparr>problem = ''Pool filled by pipe A in 6 hours, pipe B in 8 hours. Both together?'', answer = 343 / 100\<rparr>,
      \<lparr>problem = ''Car to motorcycle ratio 5:2. If 35 cars, how many motorcycles?'', answer = 14\<rparr>,
      \<lparr>problem = ''Profit increased from $50,000 to $65,000. Percentage increase?'', answer = 30\<rparr>]"

text \<open>
  One call of the service. The request is logged before the reply is known, so a failed
  call is a request made.
\<close>

definition completion_request :: "string \<Rightarrow> rat \<Rightarrow> request" where
  "completion_request p temp =
     \<lparr>model = ''gpt-3.5-turbo'',
      content = ''Solve: '' @ p @ ''\<newline>\<newline>Let's think step-by-step:'',
      temperature = temp,
      max_tokens = 300\<rparr>"

definition get_response :: "service \<Rightarrow> string \<Rightarrow> rat \<Rightarrow> world \<Rightarrow> (error + string) \<times> world" where
  "get_response api p temp w =
     (let req = completion_request p temp;
          w' = w\<lparr>requests := requests w @ [req]\<rparr>
      in case api (length (requests w)) req of
           Content t \<Rightarrow> (Inr t, w')
         | Failure \<Rightarrow> (Inl APIError, w'))"

text \<open>
  Python's truth value of an extracted answer, as tested by \<^verbatim>\<open>if det_answer\<close> and
  \<^verbatim>\<open>if answer:\<close>: \<^verbatim>\<open>None\<close> is false, and so is the number zero.
\<close>

definition truthy :: "rat option \<Rightarrow> bool" where
  "truthy v = (case v of None \<Rightarrow> False | Some a \<Rightarrow> a \<noteq> 0)"

text \<open>The loop \<^verbatim>\<open>for i in range(10)\<close>, with the number of rounds left as argument.\<close>

fun sample_loop ::
  "service \<Rightarrow> string \<Rightarrow> nat \<Rightarrow> rat list \<Rightarrow> world \<Rightarrow> (error + rat list) \<times> world" where
  "sample_loop api p 0 answers w = (Inr answers, w)"
| "sample_loop api p (Suc n) answers w =
     (case get_response api p (11 / 10) w of
        (Inl e, w') \<Rightarrow> (Inl e, w')
      | (Inr response, w') \<Rightarrow>
          (case extract_number response of
             None \<Rightarrow> sample_loop api p n answers w'
           | Some a \<Rightarrow>
               sample_loop api p n (if truthy (Some a) then answers @ [a] else answers) w'))"

record problem_result =
  problem_text :: string
  correct_answer :: rat
  deterministic_answer :: "rat option"
  deterministic_correct :: bool
  majority_answer :: "rat option"
  majority_correct :: bool
  all_answers :: "rat list"

definition mark :: "bool \<Rightarrow> string" where
  "mark ok = (if ok then [CHR 0xE2, CHR 0x9C, CHR 0x93] else [CHR 0xE2, CHR 0x9C, CHR 0x97])"

definition evaluate_problem ::
  "service \<Rightarrow> problem_data \<Rightarrow> world \<Rightarrow> (error + problem_result) \<times> world" where
  "evaluate_problem api pd w0 =
     (let p = problem pd;
          correct = answer pd;
          w1 = print [Str (''\<newline>Problem: '' @ p)] w0;
          w2 = print [Str ''Correct: '', Num correct] w1
      in case get_response api p 0 w2 of
           (Inl e, w3) \<Rightarrow> (Inl e, w3)
         | (Inr det_response, w3) \<Rightarrow>
             (let det_answer = extract_number det_response;
                  det_correct =
                    (case det_answer of
                       None \<Rightarrow> False
                     | Some a \<Rightarrow> if truthy (Some a) then \<bar>a - correct\<bar> < 1 / 10 else False);
                  w4 = print [Str ''Deterministic: '', NumOpt det_answer,
                              Str ('' ('' @ mark det_correct @ '')'')] w3
              in case sample_loop api p 10 [] w4 of
                   (Inl e, w5) \<Rightarrow> (Inl e, w5)
                 | (Inr answers, w5) \<Rightarrow>
                     if answers \<noteq> [] then
                       (case most_common1 (Counter answers) of
                          [] \<Rightarrow> (Inl IndexError, w5)
                        | kv # _ \<Rightarrow>
                            (let maj = fst kv;
                                 maj_correct = (\<bar>maj - correct\<bar> < 1 / 10);
                                 w6 = print [Str ''Majority vote: '', Num maj,
                                             Str ('' ('' @ mark maj_correct @ '')'')] w5;
                                 w7 = print [Str ''All answers: '', NumList answers] w6
                             in (Inr \<lparr>problem_text = p, correct_answer = correct,
                                      deterministic_answer = det_answer,
                                      deterministic_correct = det_correct,
                                      majority_answer = Some maj,
                                      majority_correct = maj_correct,
                                      all_answers = answers\<rparr>, w7)))
                     else
                       (Inr \<lparr>problem_text = p, correct_answer = correct,
                             deterministic_answer = det_answer,
                             deterministic_correct = det_correct,
                             majority_answer = None,
                             majority_correct = False,
                             all_answers = answers\<rparr>,
                        print [Str ''Majority vote: Failed to extract answers''] w5)))"

text \<open>
  The loop of \<^verbatim>\<open>main\<close> over the problems, with the index of \<^verbatim>\<open>enumerate\<close> and the three
  accumulators: the results and the two scores.
\<close>

fun main_loop ::
  "service \<Rightarrow> problem_data list \<Rightarrow> nat \<Rightarrow> problem_result list \<times> nat \<times> nat \<Rightarrow> world \<Rightarrow>
     (error + problem_result list \<times> nat \<times> nat) \<times> world" where
  "main_loop api [] i acc w = (Inr acc, w)"
| "main_loop api (pd # pds) i (results, det_score, maj_score) w =
     (let w1 = print [Str (''\<newline>'' @ replicate 50 CHR ''='')] w;
          w2 = print [Str (''Problem '' @ str_nat (i + 1) @ ''/10'')] w1
      in case evaluate_problem api pd w2 of
           (Inl e, w3) \<Rightarrow> (Inl e, w3)
         | (Inr result, w3) \<Rightarrow>
             main_loop api pds (i + 1)
               (results @ [result],
                (if deterministic_correct result then det_score + 1 else det_score),
                (if majority_correct result then maj_score + 1 else maj_score)) w3)"

text \<open>What \<^verbatim>\<open>json.dump(results, f, indent=2)\<close> writes.\<close>

definition opt_json :: "rat option \<Rightarrow> json" where
  "opt_json v = (case v of None \<Rightarrow> JNull | Some a \<Rightarrow> JNum a)"

definition result_json :: "problem_result \<Rightarrow> json" where
  "result_json r =
     JObj [(''problem'', JStr (problem_text r)),
           (''correct_answer'', JNum (correct_answer r)),
           (''deterministic_answer'', opt_json (deterministic_answer r)),
           (''deterministic_correct'', JBool (deterministic_correct r)),
           (''majority_answer'', opt_json (majority_answer r)),
           (''majority_correct'', JBool (majority_correct r)),
           (''all_answers'', JArr (map JNum (all_answers r)))]"

definition json_dump :: "problem_result list \<Rightarrow> json" where
  "json_dump results = JArr (map result_json results)"

definition main :: "service \<Rightarrow> world \<Rightarrow> error option \<times> world" where
  "main api w =
     (if (case env w ''OPENAI_API_KEY'' of None \<Rightarrow> True | Some k \<Rightarrow> k = [])
      then (None, print [Str ''Set OPENAI_API_KEY environment variable''] w)
      else
        (case main_loop api PROBLEMS 0 ([], 0, 0) w of
           (Inl e, w1) \<Rightarrow> (Some e, w1)
         | (Inr (results, det_score, maj_score), w1) \<Rightarrow>
             (let w2 = print [Str (''\<newline>'' @ replicate 50 CHR ''='')] w1;
                  w3 = print [Str ''RESULTS''] w2;
                  w4 = print [Str (replicate 50 CHR ''='')] w3;
                  w5 = print [Str (''Deterministic accuracy: '' @ str_nat det_score @ ''/10 (''
                                   @ str_nat (det_score * 10) @ ''%)'')] w4;
                  w6 = print [Str (''Majority vote accuracy: '' @ str_nat maj_score @ ''/10 (''
                                   @ str_nat (maj_score * 10) @ ''%)'')] w5;
                  w7 = print [Str (''Improvement: ''
                                   @ str_int_signed ((int maj_score - int det_score) * 10)
                                   @ ''%'')] w6;
                  w8 = w7\<lparr>files := (files w7)(''problems.json'' \<mapsto> JsonFile (json_dump results))\<rparr>
              in (None, print [Str ''\<newline>Results saved to problems.json''] w8))))"

text \<open>
  The constructor of the client, from the \<^verbatim>\<open>openai\<close> package (version 1 and later,
  the versions that export \<^verbatim>\<open>OpenAI\<close> and \<^verbatim>\<open>client.chat.completions\<close>): with
  \<^verbatim>\<open>api_key=None\<close> it looks the key up in the environment itself and raises
  \<^verbatim>\<open>OpenAIError\<close> when there is none. The second argument is the environment.
\<close>

definition OpenAI :: "string option \<Rightarrow> (string \<rightharpoonup> string) \<Rightarrow> error + string" where
  "OpenAI api_key e =
     (case (case api_key of None \<Rightarrow> e ''OPENAI_API_KEY'' | Some k \<Rightarrow> Some k) of
        None \<Rightarrow> Inl OpenAIError
      | Some k \<Rightarrow> Inr k)"

text \<open>
  A run of the script: the module level builds the client from the environment (as it
  is after \<^verbatim>\<open>load_dotenv()\<close>), then \<^verbatim>\<open>main()\<close> runs.
\<close>

definition self_consistency :: "service \<Rightarrow> world \<Rightarrow> error option \<times> world" where
  "self_consistency api w =
     (case OpenAI (env w ''OPENAI_API_KEY'') (env w) of
        Inl e \<Rightarrow> (Some e, w)
      | Inr client \<Rightarrow> main api w)"

subsection \<open>The reporter: \<^verbatim>\<open>accuracy.py\<close>\<close>

text \<open>\<^verbatim>\<open>json.load\<close> on the content of a file.\<close>

definition json_load :: "file_content \<Rightarrow> error + json" where
  "json_load f = (case f of JsonFile j \<Rightarrow> Inr j | _ \<Rightarrow> Inl JSONDecodeError)"

text \<open>Python's truth value of a loaded JSON value.\<close>

fun json_truthy :: "json \<Rightarrow> bool" where
  "json_truthy JNull = False"
| "json_truthy (JBool b) = b"
| "json_truthy (JNum x) = (x \<noteq> 0)"
| "json_truthy (JStr s) = (s \<noteq> [])"
| "json_truthy (JArr xs) = (xs \<noteq> [])"
| "json_truthy (JObj kvs) = (kvs \<noteq> [])"

text \<open>
  Iterating a loaded value (\<^verbatim>\<open>for r in results\<close>): a list gives its elements, an object
  its keys, a string its characters; nothing else is iterable.
\<close>

fun py_iter :: "json \<Rightarrow> error + json list" where
  "py_iter (JArr xs) = Inr xs"
| "py_iter (JObj kvs) = Inr (map (\<lambda>kv. JStr (fst kv)) kvs)"
| "py_iter (JStr s) = Inr (map (\<lambda>c. JStr [c]) s)"
| "py_iter _ = Inl TypeError"

text \<open>Subscripting with a string key (\<^verbatim>\<open>r["deterministic_correct"]\<close>).\<close>

fun py_getitem :: "json \<Rightarrow> string \<Rightarrow> error + json" where
  "py_getitem (JObj kvs) k = (case map_of kvs k of None \<Rightarrow> Inl KeyError | Some v \<Rightarrow> Inr v)"
| "py_getitem _ k = Inl TypeError"

fun py_len :: "json \<Rightarrow> error + nat" where
  "py_len (JArr xs) = Inr (length xs)"
| "py_len (JObj kvs) = Inr (length kvs)"
| "py_len (JStr s) = Inr (length s)"
| "py_len _ = Inl TypeError"

text \<open>\<^verbatim>\<open>sum(1 for r in results if r[key])\<close> over the iterated elements.\<close>

fun count_correct :: "json list \<Rightarrow> string \<Rightarrow> nat \<Rightarrow> error + nat" where
  "count_correct [] k n = Inr n"
| "count_correct (r # rs) k n =
     (case py_getitem r k of
        Inl e \<Rightarrow> Inl e
      | Inr v \<Rightarrow> count_correct rs k (if json_truthy v then n + 1 else n))"

text \<open>Lines 19 to 21: the two counts and the total.\<close>

definition count_results :: "json \<Rightarrow> error + nat \<times> nat \<times> nat" where
  "count_results results =
     (case py_iter results of
        Inl e \<Rightarrow> Inl e
      | Inr rs \<Rightarrow>
          (case count_correct rs ''deterministic_correct'' 0 of
             Inl e \<Rightarrow> Inl e
           | Inr det_correct \<Rightarrow>
               (case count_correct rs ''majority_correct'' 0 of
                  Inl e \<Rightarrow> Inl e
                | Inr maj_correct \<Rightarrow>
                    (case py_len results of
                       Inl e \<Rightarrow> Inl e
                     | Inr total_n \<Rightarrow> Inr (det_correct, maj_correct, total_n)))))"

text \<open>
  The format specifications \<^verbatim>\<open>.1%\<close> and \<^verbatim>\<open>+.1%\<close>: the value times one hundred with one
  digit after the point, rounded half to even, and the sign.
\<close>

definition round_half_even :: "rat \<Rightarrow> int" where
  "round_half_even x =
     (let f = \<lfloor>x\<rfloor>; d = x - of_int f
      in if d < 1 / 2 then f else if 1 / 2 < d then f + 1 else if even f then f else f + 1)"

definition format_percent :: "bool \<Rightarrow> rat \<Rightarrow> string" where
  "format_percent signed x =
     (let t = nat (round_half_even (\<bar>x\<bar> * 1000))
      in (if x < 0 then ''-'' else if signed then ''+'' else [])
         @ str_nat (t div 10) @ ''.'' @ str_nat (t mod 10) @ ''%'')"

definition create_accuracy_chart :: "world \<Rightarrow> error option \<times> world" where
  "create_accuracy_chart w =
     (case files w ''problems.json'' of
        None \<Rightarrow> (None, print [Str ''Run self_consistency.py first to generate results''] w)
      | Some f \<Rightarrow>
          (case json_load f of
             Inl e \<Rightarrow> (Some e, w)
           | Inr results \<Rightarrow>
               (case count_results results of
                  Inl e \<Rightarrow> (Some e, w)
                | Inr (det_correct, maj_correct, total_n) \<Rightarrow>
                    if total_n = 0 then (Some ZeroDivisionError, w)
                    else
                      (let methods = [''Deterministic\<newline>(temp=0)'', ''Majority Vote\<newline>(temp=1.1)''];
                           scores = [of_nat det_correct / of_nat total_n,
                                     of_nat maj_correct / of_nat total_n];
                           fig = \<lparr>bar_labels = methods, bar_heights = scores,
                                  bar_colors = [''lightcoral'', ''lightblue''],
                                  bar_texts = map (\<lambda>score. (score + 1 / 100,
                                                format_percent False score)) scores,
                                  ylabel = ''Accuracy'',
                                  title = ''Chain-of-Thought: Deterministic vs Self-Consistency'',
                                  ylim = (0, 1)\<rparr>;
                           w1 = w\<lparr>files := (files w)(''accuracy.png'' \<mapsto> ImageFile fig)\<rparr>;
                           w2 = print [Str ''Accuracy chart saved as accuracy.png''] w1;
                           improvement = (of_nat maj_correct - of_nat det_correct) / of_nat total_n;
                           w3 = print [Str ''\<newline>Accuracy Results:''] w2;
                           w4 = print [Str (''Deterministic: '' @ str_nat det_correct @ ''/''
                                            @ str_nat total_n @ '' (''
                                            @ format_percent False (of_nat det_correct / of_nat total_n)
                                            @ '')'')] w3;
                           w5 = print [Str (''Majority Vote: '' @ str_nat maj_correct @ ''/''
                                            @ str_nat total_n @ '' (''
                                            @ format_percent False (of_nat maj_correct / of_nat total_n)
                                            @ '')'')] w4
                       in (None, print [Str (''Improvement: ''
                                             @ format_percent True improvement)] w5)))))"

subsection \<open>Concrete runs\<close>

text \<open>
  A world with a credential and no files, a service that answers every request with the
  same text, and a service that answers the requests of a run from a script.
\<close>

definition world0 :: world where
  "world0 = \<lparr>env = [''OPENAI_API_KEY'' \<mapsto> ''sk-test''], files = Map.empty,
             requests = [], stdout = []\<rparr>"

definition constant_service :: "string \<Rightarrow> service" where
  "constant_service t = (\<lambda>n req. Content t)"

definition scripted_service :: "string list \<Rightarrow> service" where
  "scripted_service ts = (\<lambda>n req. if n < length ts then Content (ts ! n) else Failure)"

text \<open>
  Ten results of which seven have a correct deterministic answer and nine a correct
  majority answer.
\<close>

definition outcome :: "bool \<Rightarrow> bool \<Rightarrow> problem_result" where
  "outcome d m =
     \<lparr>problem_text = ''p'', correct_answer = 1,
      deterministic_answer = (if d then Some 1 else None), deterministic_correct = d,
      majority_answer = (if m then Some 1 else None), majority_correct = m,
      all_answers = (if m then [1] else [])\<rparr>"

definition ten_results :: "problem_result list" where
  "ten_results =
     replicate 7 (outcome True True) @ replicate 2 (outcome False True) @ [outcome False False]"

section \<open>Properties\<close>

subsection \<open>The scan for numbers\<close>








lemma float_of_nonneg: "0 \<le> float_of m"
  by (auto simp: float_of_def Let_def split: list.splits)

subsection \<open>The counter and its most common entry\<close>

lemma keys_counter_add:
  "map fst (counter_add x c) = (if x \<in> set (map fst c) then map fst c else map fst c @ [x])"
  by (induction x c rule: counter_add.induct) auto

lemma map_of_counter_add:
  "map_of (counter_add x c) k =
     (if k = x then Some (case map_of c x of None \<Rightarrow> 1 | Some n \<Rightarrow> n + 1) else map_of c k)"
  by (induction x c rule: counter_add.induct) auto

lemma Counter_snoc: "Counter (xs @ [x]) = counter_add x (Counter xs)"
  by (simp add: Counter_def)

lemma Counter_Nil: "Counter [] = []"
  by (simp add: Counter_def)

lemma keys_Counter_set: "set (map fst (Counter xs)) = set xs"
  by (induction xs rule: rev_induct) (auto simp: Counter_Nil Counter_snoc keys_counter_add)

lemma keys_Counter_image: "fst ` set (Counter xs) = set xs"
  using keys_Counter_set [of xs] by simp

lemma keys_Counter_distinct: "distinct (map fst (Counter xs))"
proof (induction xs rule: rev_induct)
  case Nil
  show ?case by (simp add: Counter_Nil)
next
  case (snoc x xs)
  then show ?case
    unfolding Counter_snoc keys_counter_add by simp
qed

lemma map_of_Counter:
  "map_of (Counter xs) k = (if k \<in> set xs then Some (count_list xs k) else None)"
proof (induction xs arbitrary: k rule: rev_induct)
  case Nil
  show ?case by (simp add: Counter_Nil)
next
  case (snoc x xs)
  then show ?case
    by (simp add: Counter_snoc map_of_counter_add)
qed

lemma Counter_entry: "(k, n) \<in> set (Counter xs) \<Longrightarrow> k \<in> set xs \<and> n = count_list xs k"
proof -
  assume a: "(k, n) \<in> set (Counter xs)"
  then have "map_of (Counter xs) k = Some n"
    using keys_Counter_distinct [of xs] by simp
  then show ?thesis
    by (simp add: map_of_Counter split: if_splits)
qed

lemma Counter_has_entry: "k \<in> set xs \<Longrightarrow> (k, count_list xs k) \<in> set (Counter xs)"
proof -
  assume "k \<in> set xs"
  then have "map_of (Counter xs) k = Some (count_list xs k)"
    by (simp add: map_of_Counter)
  then show ?thesis by (rule map_of_SomeD)
qed

lemma first_index_less: "v \<in> set xs \<Longrightarrow> first_index xs v < length xs"
  unfolding first_index_def by (induction xs) auto

lemma first_index_snoc_old: "v \<in> set xs \<Longrightarrow> first_index (xs @ [x]) v = first_index xs v"
  unfolding first_index_def by (induction xs) auto

lemma first_index_snoc_new: "x \<notin> set xs \<Longrightarrow> first_index (xs @ [x]) x = length xs"
  unfolding first_index_def by (induction xs) auto

lemma keys_Counter_order:
  "sorted_wrt (\<lambda>a b. first_index xs a < first_index xs b) (map fst (Counter xs))"
proof (induction xs rule: rev_induct)
  case Nil
  show ?case by (simp add: Counter_Nil)
next
  case (snoc x xs)
  let ?ks = "map fst (Counter xs)"
  have old: "sorted_wrt (\<lambda>a b. first_index (xs @ [x]) a < first_index (xs @ [x]) b) ?ks"
    using snoc
    by (rule sorted_wrt_mono_rel [rotated])
       (simp add: keys_Counter_image first_index_snoc_old)
  show ?case
  proof (cases "x \<in> set xs")
    case True
    then show ?thesis
      using old by (simp add: Counter_snoc keys_counter_add keys_Counter_image)
  next
    case False
    have "\<forall>a \<in> set ?ks. first_index (xs @ [x]) a < first_index (xs @ [x]) x"
      using False
      by (simp add: keys_Counter_image first_index_snoc_old first_index_snoc_new first_index_less)
    then show ?thesis
      using old False
      by (simp add: Counter_snoc keys_counter_add keys_Counter_image sorted_wrt_append)
  qed
qed

lemma max_by_count_first_max:
  "\<exists>pre post. b # kvs = pre @ max_by_count b kvs # post \<and>
      (\<forall>kv \<in> set pre. snd kv < snd (max_by_count b kvs)) \<and>
      (\<forall>kv \<in> set post. snd kv \<le> snd (max_by_count b kvs))"
proof (induction kvs arbitrary: b)
  case Nil
  show ?case by (intro exI [of _ "[]"]) simp
next
  case (Cons kv kvs)
  define b' where "b' = (if snd b < snd kv then kv else b)"
  define r where "r = max_by_count b' kvs"
  from Cons [of b'] obtain pre post where
    d: "b' # kvs = pre @ r # post" and
    lo: "\<forall>e \<in> set pre. snd e < snd r" and
    hi: "\<forall>e \<in> set post. snd e \<le> snd r"
    unfolding r_def by blast
  have b'_le: "snd b' \<le> snd r"
  proof (cases pre)
    case Nil
    with d show ?thesis by simp
  next
    case (Cons e es)
    with d have "b' = e" by simp
    with lo Cons show ?thesis by (simp add: less_imp_le)
  qed
  have r: "max_by_count b (kv # kvs) = r" by (simp add: r_def b'_def)
  have "\<exists>pre post. b # kv # kvs = pre @ r # post \<and>
      (\<forall>e \<in> set pre. snd e < snd r) \<and> (\<forall>e \<in> set post. snd e \<le> snd r)"
  proof (cases "snd b < snd kv")
    case True
    then have kv: "b' = kv" by (simp add: b'_def)
    have "b # kv # kvs = (b # pre) @ r # post" using d kv by simp
    moreover have "\<forall>e \<in> set (b # pre). snd e < snd r"
      using lo True b'_le kv by auto
    ultimately show ?thesis using hi by blast
  next
    case False
    then have bb: "b' = b" by (simp add: b'_def)
    show ?thesis
    proof (cases pre)
      case Nil
      then have rb: "r = b" and post: "post = kvs" using d bb by simp_all
      have "b # kv # kvs = [] @ r # (kv # kvs)" using rb by simp
      moreover have "\<forall>e \<in> set (kv # kvs). snd e \<le> snd r"
        using hi False rb post by auto
      moreover have "\<forall>e \<in> set ([] :: ('a \<times> nat) list). snd e < snd r" by simp
      ultimately show ?thesis by blast
    next
      case (Cons e es)
      then have eb: "e = b" and kvs: "kvs = es @ r # post" using d bb by simp_all
      have "b # kv # kvs = (b # kv # es) @ r # post" using kvs by simp
      moreover have "\<forall>e \<in> set (b # kv # es). snd e < snd r"
        using lo False Cons eb by auto
      ultimately show ?thesis using hi by blast
    qed
  qed
  then show ?case unfolding r .
qed

lemma most_common1_stable_mode:
  assumes "xs \<noteq> []"
  shows "\<exists>kv. most_common1 (Counter xs) = [kv] \<and> stable_mode xs (fst kv)"
proof -
  have "Counter xs \<noteq> []" using assms keys_Counter_image [of xs] by auto
  then obtain c0 cs where c: "Counter xs = c0 # cs" by (cases "Counter xs") auto
  obtain m n where r: "max_by_count c0 cs = (m, n)" by (cases "max_by_count c0 cs")
  obtain pre post where
    d: "c0 # cs = pre @ (m, n) # post" and
    lo: "\<forall>e \<in> set pre. snd e < n" and
    hi: "\<forall>e \<in> set post. snd e \<le> n"
    using max_by_count_first_max [of c0 cs] unfolding r by auto
  have mem: "(m, n) \<in> set (Counter xs)" using c d by simp
  then have m: "m \<in> set xs" and n: "n = count_list xs m"
    by (auto dest: Counter_entry)
  have le: "count_list xs v \<le> count_list xs m" if "v \<in> set xs" for v
  proof -
    have "(v, count_list xs v) \<in> set (pre @ (m, n) # post)"
      using Counter_has_entry [OF that] c d by simp
    then show ?thesis using lo hi n by (auto simp: less_imp_le)
  qed
  have ord: "sorted_wrt (\<lambda>a b. first_index xs a < first_index xs b) (map fst (pre @ (m, n) # post))"
    using keys_Counter_order [of xs] c d by simp
  have tie: "first_index xs m \<le> first_index xs v"
    if "v \<in> set xs" "count_list xs v = count_list xs m" for v
  proof -
    have "(v, count_list xs v) \<in> set (pre @ (m, n) # post)"
      using Counter_has_entry [OF that(1)] c d by simp
    then consider "(v, count_list xs v) \<in> set pre" | "v = m"
      | "(v, count_list xs v) \<in> set post" by auto
    then show ?thesis
    proof cases
      case 1
      then show ?thesis using lo that(2) n by auto
    next
      case 2
      then show ?thesis by simp
    next
      case 3
      then have "v \<in> set (map fst post)" by force
      then show ?thesis using ord by (auto simp: sorted_wrt_append less_imp_le)
    qed
  qed
  have "most_common1 (Counter xs) = [(m, n)]" by (simp add: most_common1_def c r)
  moreover have "stable_mode xs m"
    unfolding stable_mode_def using m le tie by blast
  ultimately show ?thesis by (intro exI [of _ "(m, n)"]) simp
qed

subsection \<open>One problem\<close>

lemma extract_number_nonneg: "extract_number s = Some a \<Longrightarrow> 0 \<le> a"
  by (auto simp: extract_number_def Let_def float_of_nonneg split: if_splits)

lemma print_fields [simp]:
  "requests (print l w) = requests w" "files (print l w) = files w"
  "env (print l w) = env w" "stdout (print l w) = stdout w @ [l]"
  by (simp_all add: print_def)

lemma get_response_cases:
  "get_response api p temp w =
     (case api (length (requests w)) (completion_request p temp) of
        Content t \<Rightarrow> (Inr t, w\<lparr>requests := requests w @ [completion_request p temp]\<rparr>)
      | Failure \<Rightarrow> (Inl APIError, w\<lparr>requests := requests w @ [completion_request p temp]\<rparr>))"
  by (simp add: get_response_def Let_def)

lemma get_response_Inr:
  "get_response api p temp w = (Inr t, w') \<Longrightarrow>
     api (length (requests w)) (completion_request p temp) = Content t \<and>
     w' = w\<lparr>requests := requests w @ [completion_request p temp]\<rparr>"
  by (auto simp: get_response_cases split: reply.splits)

lemma sample_loop_retains:
  "fst (sample_loop api p n acc w) = Inr answers \<Longrightarrow>
     \<exists>new. answers = acc @ new \<and> (\<forall>a \<in> set new. 0 < a)"
proof (induction n arbitrary: acc w)
  case 0
  then show ?case by simp
next
  case (Suc n)
  obtain x w' where g: "get_response api p (11 / 10) w = (x, w')"
    by (cases "get_response api p (11 / 10) w")
  show ?case
  proof (cases x)
    case (Inl e)
    with Suc.prems g show ?thesis by simp
  next
    case (Inr response)
    show ?thesis
    proof (cases "extract_number response")
      case None
      with Suc.prems g Inr have "fst (sample_loop api p n acc w') = Inr answers" by simp
      then show ?thesis by (rule Suc.IH)
    next
      case (Some a)
      show ?thesis
      proof (cases "a = 0")
        case True
        with Suc.prems g Inr Some have "fst (sample_loop api p n acc w') = Inr answers"
          by (simp add: truthy_def)
        then show ?thesis by (rule Suc.IH)
      next
        case False
        with Suc.prems g Inr Some have "fst (sample_loop api p n (acc @ [a]) w') = Inr answers"
          by (simp add: truthy_def)
        then obtain new where n: "answers = (acc @ [a]) @ new" "\<forall>a \<in> set new. 0 < a"
          using Suc.IH by blast
        have "0 < a" using False extract_number_nonneg [OF Some] by simp
        with n show ?thesis by (intro exI [of _ "a # new"]) simp
      qed
    qed
  qed
qed

lemma sample_loop_pos:
  "sample_loop api p n [] w = (Inr answers, w') \<Longrightarrow> \<forall>a \<in> set answers. 0 < a"
  using sample_loop_retains [of api p n "[]" w answers] by auto

lemma most_common1_Counter_Cons:
  "most_common1 (Counter xs) = kv # rest \<Longrightarrow> stable_mode xs (fst kv)"
proof -
  assume a: "most_common1 (Counter xs) = kv # rest"
  have "xs \<noteq> []" using a by (auto simp: most_common1_def Counter_Nil)
  then show ?thesis using most_common1_stable_mode [of xs] a by auto
qed

lemma most_common1_Counter_Nil: "most_common1 (Counter xs) = [] \<Longrightarrow> xs = []"
  using most_common1_stable_mode [of xs] by auto

lemma evaluate_problem_result:
  assumes "fst (evaluate_problem api pd w) = Inr r"
  shows "problem_text r = problem pd \<and>
    correct_answer r = answer pd \<and>
    (\<exists>t. api (length (requests w)) (completion_request (problem pd) 0) = Content t \<and>
             deterministic_answer r = extract_number t) \<and>
    deterministic_correct r =
           (case deterministic_answer r of
              None \<Rightarrow> False
            | Some a \<Rightarrow> a \<noteq> 0 \<and> \<bar>a - answer pd\<bar> < 1 / 10) \<and>
    (\<forall>a \<in> set (all_answers r). 0 < a) \<and>
    (all_answers r = [] \<longrightarrow> majority_answer r = None \<and> \<not> majority_correct r) \<and>
    (all_answers r \<noteq> [] \<longrightarrow>
           (\<exists>m. majority_answer r = Some m \<and> stable_mode (all_answers r) m \<and>
                 majority_correct r = (\<bar>m - answer pd\<bar> < 1 / 10)))"
  using assms
  apply (simp add: evaluate_problem_def Let_def split: prod.splits sum.splits if_splits list.splits)
   apply (auto dest!: get_response_Inr sample_loop_pos most_common1_Counter_Cons most_common1_Counter_Nil
        simp: truthy_def split: option.splits)
  done


lemma result_deterministic_answer:
  "fst (evaluate_problem api pd w) = Inr r \<Longrightarrow>
     \<exists>t. api (length (requests w)) (completion_request (problem pd) 0) = Content t \<and>
         deterministic_answer r = extract_number t"
  by (drule evaluate_problem_result) blast


lemma result_all_answers_pos:
  "fst (evaluate_problem api pd w) = Inr r \<Longrightarrow> a \<in> set (all_answers r) \<Longrightarrow> 0 < a"
  by (drule evaluate_problem_result) blast

lemma result_no_answers:
  "fst (evaluate_problem api pd w) = Inr r \<Longrightarrow> all_answers r = [] \<Longrightarrow>
     majority_answer r = None \<and> \<not> majority_correct r"
  by (drule evaluate_problem_result) blast

lemma result_some_answers:
  "fst (evaluate_problem api pd w) = Inr r \<Longrightarrow> all_answers r \<noteq> [] \<Longrightarrow>
     \<exists>m. majority_answer r = Some m \<and> stable_mode (all_answers r) m \<and>
         majority_correct r = (\<bar>m - answer pd\<bar> < 1 / 10)"
  by (drule evaluate_problem_result) blast

lemma result_majority_answer:
  "fst (evaluate_problem api pd w) = Inr r \<Longrightarrow> majority_answer r = Some m \<Longrightarrow>
     all_answers r \<noteq> [] \<and> stable_mode (all_answers r) m \<and>
     majority_correct r = (\<bar>m - answer pd\<bar> < 1 / 10)"
proof -
  assume e: "fst (evaluate_problem api pd w) = Inr r" and m: "majority_answer r = Some m"
  have ne: "all_answers r \<noteq> []" using result_no_answers [OF e] m by auto
  show ?thesis using result_some_answers [OF e ne] m ne by auto
qed

lemmas extract_eval = extract_number_def match_number_def is_digit_def float_of_def digits_value_def


subsection \<open>Runs against fixed services\<close>

lemma get_response_constant:
  "get_response (constant_service t) p temp w =
     (Inr t, w\<lparr>requests := requests w @ [completion_request p temp]\<rparr>)"
  by (simp add: get_response_def constant_service_def Let_def)

lemma sample_loop_constant_kept:
  "extract_number t = Some a \<Longrightarrow> a \<noteq> 0 \<Longrightarrow>
     fst (sample_loop (constant_service t) p n acc w) = Inr (acc @ replicate n a)"
  by (induction n arbitrary: acc w)
     (simp_all add: get_response_constant truthy_def replicate_app_Cons_same)

lemma sample_loop_constant_dropped:
  "extract_number t = None \<or> extract_number t = Some 0 \<Longrightarrow>
     fst (sample_loop (constant_service t) p n acc w) = Inr acc"
  by (induction n arbitrary: acc w) (auto simp: get_response_constant truthy_def)

lemma Counter_replicate: "Counter (replicate (Suc n) a) = [(a, Suc n)]"
proof (induction n)
  case 0
  show ?case by (simp add: Counter_def)
next
  case (Suc n)
  have "replicate (Suc (Suc n)) a = replicate (Suc n) a @ [a]"
    by (simp add: replicate_append_same)
  then show ?case using Suc by (simp only: Counter_snoc) simp
qed

lemma evaluate_problem_constant_kept:
  assumes "extract_number t = Some a" "a \<noteq> 0"
  shows "fst (evaluate_problem (constant_service t) pd w) =
     Inr \<lparr>problem_text = problem pd, correct_answer = answer pd,
          deterministic_answer = Some a,
          deterministic_correct = (\<bar>a - answer pd\<bar> < 1 / 10),
          majority_answer = Some a,
          majority_correct = (\<bar>a - answer pd\<bar> < 1 / 10),
          all_answers = replicate 10 a\<rparr>"
proof -
  have c: "most_common1 (Counter (replicate 10 a)) = [(a, 10)]"
    using Counter_replicate [of 9 a] by (simp add: most_common1_def)
  show ?thesis
    using assms
    by (simp add: evaluate_problem_def Let_def get_response_constant case_prod_unfold
          sample_loop_constant_kept truthy_def c)
qed

lemma evaluate_problem_constant_dropped:
  assumes "extract_number t = None \<or> extract_number t = Some 0"
  shows "fst (evaluate_problem (constant_service t) pd w) =
     Inr \<lparr>problem_text = problem pd, correct_answer = answer pd,
          deterministic_answer = extract_number t,
          deterministic_correct = False,
          majority_answer = None,
          majority_correct = False,
          all_answers = []\<rparr>"
  using assms
  by (auto simp: evaluate_problem_def Let_def get_response_constant case_prod_unfold
        sample_loop_constant_dropped truthy_def)

lemma evaluate_problem_scripted:
  "fst (evaluate_problem
         (scripted_service [''About 63.65'', ''14'', ''so 14'', ''15'', ''14.0'', ''20'',
                            ''none'', ''0'', ''15'', ''15'', ''7''])
         \<lparr>problem = ''How many?'', answer = 14\<rparr> world0) =
   Inr \<lparr>problem_text = ''How many?'', correct_answer = 14,
        deterministic_answer = Some (6365 / 100), deterministic_correct = False,
        majority_answer = Some 14, majority_correct = True,
        all_answers = [14, 14, 15, 14, 20, 15, 15, 7]\<rparr>"
  by (simp add: evaluate_problem_def get_response_def scripted_service_def world0_def
        extract_eval truthy_def most_common1_def Counter_def eval_nat_numeral Let_def)


lemma stable_mode_unique: "stable_mode xs m \<Longrightarrow> stable_mode xs m' \<Longrightarrow> m = m'"
proof -
  assume a: "stable_mode xs m" and b: "stable_mode xs m'"
  have c: "count_list xs m = count_list xs m'"
    using a b by (auto simp: stable_mode_def intro: le_antisym)
  have "first_index xs m = first_index xs m'"
    using a b c by (auto simp: stable_mode_def intro: le_antisym)
  moreover have "m \<in> set xs" "m' \<in> set xs" using a b by (auto simp: stable_mode_def)
  moreover have "v \<in> set xs \<Longrightarrow> xs ! first_index xs v = v" for v
    unfolding first_index_def by (induction xs) auto
  ultimately show ?thesis by metis
qed

subsection \<open>The loop over the problems, the results file and the report\<close>

lemma getitem_result_json:
  "py_getitem (result_json r) ''deterministic_correct'' = Inr (JBool (deterministic_correct r))"
  "py_getitem (result_json r) ''majority_correct'' = Inr (JBool (majority_correct r))"
  by (simp_all add: result_json_def)

lemma count_correct_dump:
  "count_correct (map result_json rs) ''deterministic_correct'' n =
     Inr (n + length (filter deterministic_correct rs))"
  "count_correct (map result_json rs) ''majority_correct'' n =
     Inr (n + length (filter majority_correct rs))"
  by (induction rs arbitrary: n) (simp_all add: getitem_result_json)

lemma count_results_dump:
  "count_results (json_dump rs) =
     Inr (length (filter deterministic_correct rs), length (filter majority_correct rs), length rs)"
  by (simp add: count_results_def json_dump_def count_correct_dump)

lemma main_loop_scores:
  "fst (main_loop api pds i (rs0, d0, m0) w) = Inr (rs, d, m) \<Longrightarrow>
     d0 = length (filter deterministic_correct rs0) \<Longrightarrow>
     m0 = length (filter majority_correct rs0) \<Longrightarrow>
     d = length (filter deterministic_correct rs) \<and>
     m = length (filter majority_correct rs) \<and>
     length rs = length rs0 + length pds"
proof (induction pds arbitrary: i rs0 d0 m0 w)
  case Nil
  then show ?case by auto
next
  case (Cons pd pds)
  define w2 where "w2 = print [Str (''Problem '' @ str_nat (i + 1) @ ''/10'')]
                          (print [Str (''\<newline>'' @ replicate 50 CHR ''='')] w)"
  obtain x w3 where e: "evaluate_problem api pd w2 = (x, w3)"
    by (cases "evaluate_problem api pd w2")
  show ?case
  proof (cases x)
    case (Inl err)
    with Cons.prems(1) e show ?thesis by (simp add: Let_def w2_def)
  next
    case (Inr result)
    let ?rs1 = "rs0 @ [result]"
    let ?d1 = "if deterministic_correct result then d0 + 1 else d0"
    let ?m1 = "if majority_correct result then m0 + 1 else m0"
    have "fst (main_loop api pds (i + 1) (?rs1, ?d1, ?m1) w3) = Inr (rs, d, m)"
      using Cons.prems(1) e Inr by (simp add: Let_def w2_def)
    moreover have "?d1 = length (filter deterministic_correct ?rs1)"
      using Cons.prems(2) by simp
    moreover have "?m1 = length (filter majority_correct ?rs1)"
      using Cons.prems(3) by simp
    ultimately have "d = length (filter deterministic_correct rs) \<and>
       m = length (filter majority_correct rs) \<and> length rs = length ?rs1 + length pds"
      by (rule Cons.IH)
    then show ?thesis by simp
  qed
qed

lemma main_without_credential:
  "env w ''OPENAI_API_KEY'' = None \<or> env w ''OPENAI_API_KEY'' = Some [] \<Longrightarrow>
     main api w = (None, print [Str ''Set OPENAI_API_KEY environment variable''] w)"
  by (auto simp: main_def)

lemma main_saves_results:
  assumes "fst (main api w) = None"
    and "env w ''OPENAI_API_KEY'' = Some k" and "k \<noteq> []"
  shows "\<exists>results det_score maj_score.
           fst (main_loop api PROBLEMS 0 ([], 0, 0) w) = Inr (results, det_score, maj_score) \<and>
           files (snd (main api w)) ''problems.json'' = Some (JsonFile (json_dump results))"
proof -
  obtain x w1 where l: "main_loop api PROBLEMS 0 ([], 0, 0) w = (x, w1)"
    by (cases "main_loop api PROBLEMS 0 ([], 0, 0) w")
  show ?thesis
  proof (cases x)
    case (Inl e)
    with assms l show ?thesis by (simp add: main_def)
  next
    case (Inr acc)
    obtain results det_score maj_score where acc: "acc = (results, det_score, maj_score)"
      by (cases acc)
    show ?thesis
      using assms l Inr acc by (simp add: main_def Let_def)
  qed
qed

lemma main_loop_constant:
  assumes "extract_number t = Some a" "a \<noteq> 0"
  shows "fst (main_loop (constant_service t) pds i (rs0, d0, m0) w) =
     Inr (rs0 @ map (\<lambda>pd. \<lparr>problem_text = problem pd, correct_answer = answer pd,
                            deterministic_answer = Some a,
                            deterministic_correct = (\<bar>a - answer pd\<bar> < 1 / 10),
                            majority_answer = Some a,
                            majority_correct = (\<bar>a - answer pd\<bar> < 1 / 10),
                            all_answers = replicate 10 a\<rparr>) pds,
          d0 + length (filter (\<lambda>pd. \<bar>a - answer pd\<bar> < 1 / 10) pds),
          m0 + length (filter (\<lambda>pd. \<bar>a - answer pd\<bar> < 1 / 10) pds))"
proof (induction pds arbitrary: i rs0 d0 m0 w)
  case Nil
  show ?case by simp
next
  case (Cons pd pds)
  show ?case
    by (simp add: Let_def case_prod_unfold evaluate_problem_constant_kept [OF assms] Cons)
qed

lemmas format_eval = format_percent_def round_half_even_def str_nat.simps digit_char_def

lemma chart_of_dump:
  assumes "files w ''problems.json'' = Some (JsonFile (json_dump rs))" and "rs \<noteq> []"
  shows "fst (create_accuracy_chart w) = None \<and>
         (\<exists>fig. files (snd (create_accuracy_chart w)) ''accuracy.png'' = Some (ImageFile fig) \<and>
                bar_heights fig =
                  [of_nat (length (filter deterministic_correct rs)) / of_nat (length rs),
                   of_nat (length (filter majority_correct rs)) / of_nat (length rs)])"
  using assms
  by (simp add: create_accuracy_chart_def json_load_def count_results_dump Let_def)

section \<open>The claims\<close>




text \<open>
  Claim C2. For a non-empty sequence of answers, the most common entry of the counter is
  the value with the highest occurrence count, the first-encountered one among those of
  equal count, and this value is unique; \<open>[14, 14, 15, 14, 20]\<close> yields \<open>14\<close>. In a
  result with retained answers the majority answer is that value; in a result with none,
  the majority answer is absent and \<open>majority_correct\<close> is false.
\<close>

theorem majority_is_stable_mode:
  "(xs \<noteq> [] \<longrightarrow>
      (\<exists>kv. most_common1 (Counter xs) = [kv] \<and> stable_mode xs (fst kv) \<and>
            (\<forall>m. stable_mode xs m \<longrightarrow> m = fst kv))) \<and>
   most_common1 (Counter [14, 14, 15, 14, 20 :: rat]) = [(14, 3)] \<and>
   most_common1 (Counter ([] :: rat list)) = [] \<and>
   (fst (evaluate_problem api pd w) = Inr r \<longrightarrow>
      (all_answers r \<noteq> [] \<longrightarrow>
         (\<exists>m. majority_answer r = Some m \<and> stable_mode (all_answers r) m)) \<and>
      (all_answers r = [] \<longrightarrow> majority_answer r = None \<and> \<not> majority_correct r))"
proof -
  have "\<exists>kv. most_common1 (Counter xs) = [kv] \<and> stable_mode xs (fst kv) \<and>
            (\<forall>m. stable_mode xs m \<longrightarrow> m = fst kv)" if ne: "xs \<noteq> []"
  proof -
    obtain kv where kv: "most_common1 (Counter xs) = [kv]" "stable_mode xs (fst kv)"
      using most_common1_stable_mode [OF ne] by blast
    then show ?thesis using stable_mode_unique [of xs _ "fst kv"] by blast
  qed
  moreover have "most_common1 (Counter [14, 14, 15, 14, 20 :: rat]) = [(14, 3)]"
    by (simp add: most_common1_def Counter_def)
  moreover have "most_common1 (Counter ([] :: rat list)) = []"
    by (simp add: most_common1_def Counter_def)
  moreover have "\<exists>m. majority_answer r = Some m \<and> stable_mode (all_answers r) m"
    if "fst (evaluate_problem api pd w) = Inr r" "all_answers r \<noteq> []"
    using result_some_answers [OF that] by blast
  moreover have "majority_answer r = None \<and> \<not> majority_correct r"
    if "fst (evaluate_problem api pd w) = Inr r" "all_answers r = []"
    using result_no_answers [OF that] .
  ultimately show ?thesis by blast
qed

theorem majority_is_stable_mode_witness:
  "(\<exists>r. fst (evaluate_problem
            (scripted_service [''About 63.65'', ''14'', ''so 14'', ''15'', ''14.0'', ''20'',
                               ''none'', ''0'', ''15'', ''15'', ''7''])
            \<lparr>problem = ''How many?'', answer = 14\<rparr> world0) = Inr r \<and>
        all_answers r = [14, 14, 15, 14, 20, 15, 15, 7] \<and>
        majority_answer r = Some 14 \<and> stable_mode (all_answers r) 14 \<and>
        count_list (all_answers r) 14 = 3 \<and> count_list (all_answers r) 15 = 3) \<and>
   (\<exists>r. fst (evaluate_problem (constant_service ''I do not know.'')
            \<lparr>problem = ''How many?'', answer = 14\<rparr> world0) = Inr r \<and>
        all_answers r = [] \<and> majority_answer r = None \<and> \<not> majority_correct r)"
proof -
  define api1 where "api1 = scripted_service [''About 63.65'', ''14'', ''so 14'', ''15'',
    ''14.0'', ''20'', ''none'', ''0'', ''15'', ''15'', ''7'']"
  define pd where "pd = \<lparr>problem = ''How many?'', answer = 14\<rparr>"
  define r1 where "r1 = \<lparr>problem_text = ''How many?'', correct_answer = 14,
        deterministic_answer = Some (6365 / 100), deterministic_correct = False,
        majority_answer = Some 14, majority_correct = True,
        all_answers = [14, 14, 15, 14, 20, 15, 15, 7]\<rparr>"
  define r2 where "r2 = \<lparr>problem_text = ''How many?'', correct_answer = 14,
        deterministic_answer = None, deterministic_correct = False,
        majority_answer = None, majority_correct = False,
        all_answers = []\<rparr>"
  have x: "extract_number ''I do not know.'' = None"
    by (simp add: extract_eval)
  have e1: "fst (evaluate_problem api1 pd world0) = Inr r1"
    unfolding api1_def pd_def r1_def by (rule evaluate_problem_scripted)
  have e2: "fst (evaluate_problem (constant_service ''I do not know.'') pd world0) = Inr r2"
    using evaluate_problem_constant_dropped [of "''I do not know.''" pd world0] x
    by (simp add: pd_def r2_def)
  have "\<exists>m. majority_answer r1 = Some m \<and> stable_mode (all_answers r1) m"
    using majority_is_stable_mode [of "[]" api1 pd world0 r1] e1 by (simp add: r1_def)
  then have s1: "stable_mode (all_answers r1) 14" by (simp add: r1_def)
  have s2: "majority_answer r2 = None \<and> \<not> majority_correct r2"
    using majority_is_stable_mode [of "[]" "constant_service ''I do not know.''" pd world0 r2] e2
    by (simp add: r2_def)
  have "all_answers r1 = [14, 14, 15, 14, 20, 15, 15, 7] \<and> majority_answer r1 = Some 14 \<and>
        count_list (all_answers r1) 14 = 3 \<and> count_list (all_answers r1) 15 = 3"
    by (simp add: r1_def)
  moreover have "all_answers r2 = []" by (simp add: r2_def)
  ultimately show ?thesis
    using e1 e2 s1 s2 unfolding api1_def pd_def by blast
qed

text \<open>
  Claim C3 says that a sampled answer is left out of the vote only when extraction
  failed. The test \<^verbatim>\<open>if answer:\<close> is also false for the number zero: when every reply is
  "The answer is 0", the extractor returns \<open>0\<close> each time, yet no answer is retained, and
  the run prints that it failed to extract answers.
\<close>

theorem zero_answer_is_dropped:
  "extract_number ''The answer is 0'' = Some 0 \<and>
   fst (evaluate_problem (constant_service ''The answer is 0'') (PROBLEMS ! 0) world0) =
     Inr \<lparr>problem_text = problem (PROBLEMS ! 0), correct_answer = 1100,
          deterministic_answer = Some 0, deterministic_correct = False,
          majority_answer = None, majority_correct = False, all_answers = []\<rparr> \<and>
   last (stdout (snd (evaluate_problem (constant_service ''The answer is 0'') (PROBLEMS ! 0) world0))) =
     [Str ''Majority vote: Failed to extract answers'']"
proof -
  have x: "extract_number ''The answer is 0'' = Some 0"
    by (simp add: extract_eval)
  have a: "answer (PROBLEMS ! 0) = 1100" by (simp add: PROBLEMS_def)
  have "last (stdout (snd (evaluate_problem (constant_service ''The answer is 0'') (PROBLEMS ! 0) world0))) =
     [Str ''Majority vote: Failed to extract answers'']"
    using x
    by (simp add: evaluate_problem_def Let_def get_response_constant case_prod_unfold
          sample_loop_constant_dropped truthy_def)
  then show ?thesis
    using x a evaluate_problem_constant_dropped [of "''The answer is 0''" "PROBLEMS ! 0" world0]
    by simp
qed



text \<open>
  Claim C5. For every sequence of results, the counts the reporter computes from the
  written document are the numbers of results with a correct deterministic and a correct
  majority answer, and its total is their number. The scores the loop of the evaluator
  accumulates over any list of problems are the counts the reporter recomputes from what
  \<^verbatim>\<open>json.dump\<close> writes for the results of that loop, and a run of \<^verbatim>\<open>main\<close> that ends
  normally with a credential leaves exactly that document in \<^verbatim>\<open>problems.json\<close>; the
  reporter run after it ends normally and draws bars whose heights are the two scores of
  the evaluator divided by ten.
\<close>

theorem reporter_recounts_scores:
  "count_results (json_dump rs) =
     Inr (length (filter deterministic_correct rs), length (filter majority_correct rs),
          length rs) \<and>
   (fst (main_loop api pds i ([], 0, 0) w) = Inr (results, det_score, maj_score) \<longrightarrow>
      json_load (JsonFile (json_dump results)) = Inr (json_dump results) \<and>
      count_results (json_dump results) = Inr (det_score, maj_score, length pds)) \<and>
   (fst (main api w) = None \<and> env w ''OPENAI_API_KEY'' = Some k \<and> k \<noteq> [] \<longrightarrow>
      (\<exists>results det_score maj_score fig.
          fst (main_loop api PROBLEMS 0 ([], 0, 0) w) = Inr (results, det_score, maj_score) \<and>
          files (snd (main api w)) ''problems.json'' = Some (JsonFile (json_dump results)) \<and>
          count_results (json_dump results) = Inr (det_score, maj_score, 10) \<and>
          fst (create_accuracy_chart (snd (main api w))) = None \<and>
          files (snd (create_accuracy_chart (snd (main api w)))) ''accuracy.png'' =
            Some (ImageFile fig) \<and>
          bar_heights fig = [of_nat det_score / 10, of_nat maj_score / 10]))"
proof -
  have loop: "json_load (JsonFile (json_dump results)) = Inr (json_dump results) \<and>
      count_results (json_dump results) = Inr (det_score, maj_score, length pds)"
    if "fst (main_loop api pds i ([], 0, 0) w) = Inr (results, det_score, maj_score)"
    for pds i results det_score maj_score
    using main_loop_scores [OF that] by (simp add: count_results_dump json_load_def)
  have len: "length PROBLEMS = 10" by (simp add: PROBLEMS_def)
  have "\<exists>results det_score maj_score fig.
          fst (main_loop api PROBLEMS 0 ([], 0, 0) w) = Inr (results, det_score, maj_score) \<and>
          files (snd (main api w)) ''problems.json'' = Some (JsonFile (json_dump results)) \<and>
          count_results (json_dump results) = Inr (det_score, maj_score, 10) \<and>
          fst (create_accuracy_chart (snd (main api w))) = None \<and>
          files (snd (create_accuracy_chart (snd (main api w)))) ''accuracy.png'' =
            Some (ImageFile fig) \<and>
          bar_heights fig = [of_nat det_score / 10, of_nat maj_score / 10]"
    if m: "fst (main api w) = None" "env w ''OPENAI_API_KEY'' = Some k" "k \<noteq> []"
  proof -
    obtain results det_score maj_score where
      l: "fst (main_loop api PROBLEMS 0 ([], 0, 0) w) = Inr (results, det_score, maj_score)" and
      f: "files (snd (main api w)) ''problems.json'' = Some (JsonFile (json_dump results))"
      using main_saves_results [OF m] by blast
    have sc: "det_score = length (filter deterministic_correct results)"
      "maj_score = length (filter majority_correct results)" "length results = 10"
      using main_loop_scores [OF l] len by simp_all
    then have ne: "results \<noteq> []" by auto
    have c: "count_results (json_dump results) = Inr (det_score, maj_score, 10)"
      using loop [OF l] len by simp
    obtain fig where
      "fst (create_accuracy_chart (snd (main api w))) = None"
      "files (snd (create_accuracy_chart (snd (main api w)))) ''accuracy.png'' = Some (ImageFile fig)"
      "bar_heights fig = [of_nat det_score / 10, of_nat maj_score / 10]"
      using chart_of_dump [OF f ne] sc by auto
    with l f c show ?thesis by blast
  qed
  then show ?thesis using loop count_results_dump by blast
qed

theorem reporter_recounts_scores_witness:
  "count_results (json_dump ten_results) = Inr (7, 9, 10) \<and>
   fst (main (constant_service ''14 motorcycles'') world0) = None \<and>
   env world0 ''OPENAI_API_KEY'' = Some ''sk-test'' \<and>
   (\<exists>results.
      fst (main_loop (constant_service ''14 motorcycles'') PROBLEMS 0 ([], 0, 0) world0) =
        Inr (results, 1, 1) \<and>
      json_load (JsonFile (json_dump results)) = Inr (json_dump results) \<and>
      files (snd (main (constant_service ''14 motorcycles'') world0)) ''problems.json'' =
        Some (JsonFile (json_dump results)) \<and>
      count_results (json_dump results) = Inr (1, 1, 10))"
proof -
  define api where "api = constant_service ''14 motorcycles''"
  have x: "extract_number ''14 motorcycles'' = Some 14" by (simp add: extract_eval)
  have n: "length (filter (\<lambda>pd. \<bar>14 - answer pd\<bar> < 1 / 10) PROBLEMS) = 1"
    by (simp add: PROBLEMS_def)
  obtain R where loop: "fst (main_loop api PROBLEMS 0 ([], 0, 0) world0) = Inr (R, 1, 1)"
    using main_loop_constant [OF x, of PROBLEMS 0 "[]" 0 0 world0] n
    by (simp add: api_def)
  have k: "env world0 ''OPENAI_API_KEY'' = Some ''sk-test''" by (simp add: world0_def)
  have m: "fst (main api world0) = None"
    using loop k by (simp add: main_def case_prod_unfold Let_def)
  have t: "count_results (json_dump ten_results) = Inr (7, 9, 10)"
    using reporter_recounts_scores [of ten_results api "[]" 0 world0 "[]" 0 0 "[]", THEN conjunct1]
    by (simp add: ten_results_def outcome_def)
  have "json_load (JsonFile (json_dump R)) = Inr (json_dump R)"
    using reporter_recounts_scores [of "[]" api PROBLEMS 0 world0 R 1 1 "''sk-test''"] loop
    by simp
  moreover have "files (snd (main api world0)) ''problems.json'' = Some (JsonFile (json_dump R)) \<and>
      count_results (json_dump R) = Inr (1, 1, 10)"
    using reporter_recounts_scores [of "[]" api PROBLEMS 0 world0 R 1 1 "''sk-test''"] loop m k
    by auto
  ultimately show ?thesis
    using t m k loop unfolding api_def by blast
qed

text \<open>
  Claim C6. When the results file holds ten results of which exactly seven have a correct
  deterministic answer and exactly nine a correct majority answer, the reporter ends
  normally, labels the bars \<open>70.0%\<close> and \<open>90.0%\<close>, and prints these percentages and
  the improvement \<open>+20.0%\<close>; the heights of the bars are the counts divided by the total.
\<close>

theorem report_seven_and_nine_of_ten:
  assumes "files w ''problems.json'' = Some (JsonFile (json_dump rs))"
    and "length rs = 10"
    and "length (filter deterministic_correct rs) = 7"
    and "length (filter majority_correct rs) = 9"
  shows "fst (create_accuracy_chart w) = None \<and>
         stdout (snd (create_accuracy_chart w)) =
           stdout w @
             [[Str ''Accuracy chart saved as accuracy.png''],
              [Str ''\<newline>Accuracy Results:''],
              [Str ''Deterministic: 7/10 (70.0%)''],
              [Str ''Majority Vote: 9/10 (90.0%)''],
              [Str ''Improvement: +20.0%'']] \<and>
         (\<exists>fig. files (snd (create_accuracy_chart w)) ''accuracy.png'' = Some (ImageFile fig) \<and>
                bar_heights fig = [7 / 10, 9 / 10] \<and>
                bar_texts fig = [(71 / 100, ''70.0%''), (91 / 100, ''90.0%'')])"
  using assms
  by (simp add: create_accuracy_chart_def json_load_def count_results_dump Let_def format_eval)

theorem report_seven_and_nine_of_ten_witness:
  "length ten_results = 10 \<and>
   length (filter deterministic_correct ten_results) = 7 \<and>
   length (filter majority_correct ten_results) = 9 \<and>
   fst (create_accuracy_chart
          (world0\<lparr>files := [''problems.json'' \<mapsto> JsonFile (json_dump ten_results)]\<rparr>)) = None \<and>
   stdout (snd (create_accuracy_chart
          (world0\<lparr>files := [''problems.json'' \<mapsto> JsonFile (json_dump ten_results)]\<rparr>))) =
     [[Str ''Accuracy chart saved as accuracy.png''],
      [Str ''\<newline>Accuracy Results:''],
      [Str ''Deterministic: 7/10 (70.0%)''],
      [Str ''Majority Vote: 9/10 (90.0%)''],
      [Str ''Improvement: +20.0%'']]"
proof -
  define w where "w = world0\<lparr>files := [''problems.json'' \<mapsto> JsonFile (json_dump ten_results)]\<rparr>"
  have f: "files w ''problems.json'' = Some (JsonFile (json_dump ten_results))"
    by (simp add: w_def)
  have c: "length ten_results = 10" "length (filter deterministic_correct ten_results) = 7"
    "length (filter majority_correct ten_results) = 9"
    by (simp_all add: ten_results_def outcome_def)
  have "stdout w = []" by (simp add: w_def world0_def)
  then show ?thesis
    using c report_seven_and_nine_of_ten [OF f c] unfolding w_def by simp
qed

text \<open>
  Claim C7 says that a run of the evaluator without the credential prints a message and
  ends without side effects. The guard of \<^verbatim>\<open>main\<close> does so, but the module builds the client
  before \<^verbatim>\<open>main\<close> runs, and the constructor raises when there is no key: the run ends with
  \<^verbatim>\<open>OpenAIError\<close>, nothing is printed, no request is made and no file is written.
\<close>

theorem missing_credential_raises:
  "self_consistency (constant_service ''4'') (world0\<lparr>env := Map.empty\<rparr>) =
     (Some OpenAIError, world0\<lparr>env := Map.empty\<rparr>) \<and>
   stdout (snd (self_consistency (constant_service ''4'') (world0\<lparr>env := Map.empty\<rparr>))) = [] \<and>
   main (constant_service ''4'') (world0\<lparr>env := Map.empty\<rparr>) =
     (None, print [Str ''Set OPENAI_API_KEY environment variable''] (world0\<lparr>env := Map.empty\<rparr>))"
  by (simp add: self_consistency_def OpenAI_def main_def world0_def)


text \<open>
  Claim C8. When there is no results file, the reporter ends normally, prints the
  instruction to run the evaluator first, and leaves the files as they are: no image is
  produced.
\<close>

theorem report_without_results_file:
  assumes "files w ''problems.json'' = None"
  shows "fst (create_accuracy_chart w) = None \<and>
         stdout (snd (create_accuracy_chart w)) =
           stdout w @ [[Str ''Run self_consistency.py first to generate results'']] \<and>
         files (snd (create_accuracy_chart w)) = files w \<and>
         files (snd (create_accuracy_chart w)) ''accuracy.png'' = files w ''accuracy.png''"
  using assms by (simp add: create_accuracy_chart_def)

theorem report_without_results_file_witness:
  "files world0 ''problems.json'' = None \<and>
   fst (create_accuracy_chart world0) = None \<and>
   stdout (snd (create_accuracy_chart world0)) =
     [[Str ''Run self_consistency.py first to generate results'']] \<and>
   files (snd (create_accuracy_chart world0)) ''accuracy.png'' = None"
proof -
  have f: "files world0 ''problems.json'' = None" by (simp add: world0_def)
  show ?thesis
    using f report_without_results_file [OF f] by (simp add: world0_def)
qed

text \<open>
  Claim C9. In a result whose sequence of retained answers is not empty, the majority
  answer is one of the retained answers.
\<close>

theorem majority_answer_among_answers:
  assumes "fst (evaluate_problem api pd w) = Inr r" and "all_answers r \<noteq> []"
  shows "\<exists>m. majority_answer r = Some m \<and> m \<in> set (all_answers r)"
  using result_some_answers [OF assms] by (auto simp: stable_mode_def)

theorem majority_answer_among_answers_witness:
  "\<exists>r. fst (evaluate_problem
            (scripted_service [''About 63.65'', ''14'', ''so 14'', ''15'', ''14.0'', ''20'',
                               ''none'', ''0'', ''15'', ''15'', ''7''])
            \<lparr>problem = ''How many?'', answer = 14\<rparr> world0) = Inr r \<and>
       all_answers r \<noteq> [] \<and>
       (\<exists>m. majority_answer r = Some m \<and> m \<in> set (all_answers r))"
  using majority_answer_among_answers [OF evaluate_problem_scripted] evaluate_problem_scripted
  by simp

text \<open>
  Claim C10. A value returned by the extractor is never negative, since the pattern matches
  no sign; hence neither is the deterministic answer, a retained sampled answer or the
  majority answer of a result.
\<close>

theorem extracted_answers_nonneg:
  "(extract_number s = Some v \<longrightarrow> 0 \<le> v) \<and>
   (fst (evaluate_problem api pd w) = Inr r \<longrightarrow>
      (\<forall>a. deterministic_answer r = Some a \<longrightarrow> 0 \<le> a) \<and>
      (\<forall>a \<in> set (all_answers r). 0 \<le> a) \<and>
      (\<forall>m. majority_answer r = Some m \<longrightarrow> 0 \<le> m))"
proof -
  have "0 \<le> a" if e: "fst (evaluate_problem api pd w) = Inr r"
    and a: "deterministic_answer r = Some a" for a
  proof -
    obtain t where "deterministic_answer r = extract_number t"
      using result_deterministic_answer [OF e] by blast
    with a have "extract_number t = Some a" by simp
    then show ?thesis by (rule extract_number_nonneg)
  qed
  moreover have "0 \<le> a" if "fst (evaluate_problem api pd w) = Inr r" "a \<in> set (all_answers r)" for a
    using result_all_answers_pos [OF that] by simp
  moreover have "0 \<le> m" if e: "fst (evaluate_problem api pd w) = Inr r"
    and m: "majority_answer r = Some m" for m
  proof -
    have "m \<in> set (all_answers r)"
      using result_majority_answer [OF e m] by (simp add: stable_mode_def)
    then show ?thesis using result_all_answers_pos [OF e] by force
  qed
  ultimately show ?thesis using extract_number_nonneg [of s v] by blast
qed

theorem extracted_answers_nonneg_witness:
  "extract_number ''-5 degrees'' = Some 5 \<and> (0::rat) \<le> 5 \<and>
   (\<exists>r. fst (evaluate_problem
            (scripted_service [''About 63.65'', ''14'', ''so 14'', ''15'', ''14.0'', ''20'',
                               ''none'', ''0'', ''15'', ''15'', ''7''])
            \<lparr>problem = ''How many?'', answer = 14\<rparr> world0) = Inr r \<and>
        deterministic_answer r = Some (6365 / 100) \<and> majority_answer r = Some 14 \<and>
        (\<forall>a. deterministic_answer r = Some a \<longrightarrow> 0 \<le> a) \<and>
        list_all (\<lambda>a. 0 \<le> a) (all_answers r) \<and>
        (\<forall>m. majority_answer r = Some m \<longrightarrow> 0 \<le> m))"
proof -
  have x: "extract_number ''-5 degrees'' = Some 5"
    by (simp add: extract_eval)
  show ?thesis
    using x extracted_answers_nonneg [of "''-5 degrees''" 5, OF]
      extracted_answers_nonneg [THEN conjunct2, THEN mp, OF evaluate_problem_scripted]
      evaluate_problem_scripted
    by (simp add: list_all_iff)
qed

end
